theory Spec2Isabelle
  imports Complex_Main "HOL-Library.Word" "HOL-Library.While_Combinator"
begin

unbundle bit_operations_syntax

section \<open>Numeric types of the program\<close>

text \<open>
  \<^verbatim>\<open>using BlockReward = uint64_t;\<close> is a 64-bit word: \<open>+\<close> and \<open>-\<close> wrap around,
  \<open>drop_bit\<close> is the logical right shift.

  \<^verbatim>\<open>using Height = uint_fast32_t;\<close> is an unsigned integer of a width that the platform
  chooses (32 bits or more), so the height is a word of an arbitrary width \<open>'w\<close>.
\<close>

type_synonym BlockReward = "64 word"
type_synonym 'w Height = "'w word"

text \<open>
  \<^verbatim>\<open>double\<close>: a finite value, the two infinities or NaN.  The special values follow
  IEEE 754 (a comparison with NaN is false, \<open>0/0\<close> and \<open>\<infinity> - \<infinity>\<close> are NaN).  A finite
  result is the exact real result: rounding, overflow to infinity and the sign of zero
  are not modelled.  The only divisor of the program is a container size converted to
  \<^verbatim>\<open>double\<close>, which is never a negative zero.
\<close>

datatype double = Num real | PInf | NInf | NaN

fun dneg :: "double \<Rightarrow> double" where
  "dneg (Num a) = Num (- a)"
| "dneg PInf = NInf"
| "dneg NInf = PInf"
| "dneg NaN = NaN"

fun dadd :: "double \<Rightarrow> double \<Rightarrow> double" where
  "dadd (Num a) (Num b) = Num (a + b)"
| "dadd NaN _ = NaN"
| "dadd _ NaN = NaN"
| "dadd PInf NInf = NaN"
| "dadd NInf PInf = NaN"
| "dadd PInf _ = PInf"
| "dadd _ PInf = PInf"
| "dadd NInf _ = NInf"
| "dadd _ NInf = NInf"

definition dsub :: "double \<Rightarrow> double \<Rightarrow> double" where
  "dsub a b = dadd a (dneg b)"

fun dinf :: "bool \<Rightarrow> double" where
  "dinf True = PInf"
| "dinf False = NInf"

fun dmul :: "double \<Rightarrow> double \<Rightarrow> double" where
  "dmul (Num a) (Num b) = Num (a * b)"
| "dmul NaN _ = NaN"
| "dmul _ NaN = NaN"
| "dmul (Num a) PInf = (if a = 0 then NaN else dinf (0 < a))"
| "dmul (Num a) NInf = (if a = 0 then NaN else dinf (a < 0))"
| "dmul PInf (Num b) = (if b = 0 then NaN else dinf (0 < b))"
| "dmul NInf (Num b) = (if b = 0 then NaN else dinf (b < 0))"
| "dmul PInf PInf = PInf"
| "dmul NInf NInf = PInf"
| "dmul PInf NInf = NInf"
| "dmul NInf PInf = NInf"

fun ddiv :: "double \<Rightarrow> double \<Rightarrow> double" where
  "ddiv (Num a) (Num b) =
     (if b = 0 then (if a = 0 then NaN else dinf (0 < a)) else Num (a / b))"
| "ddiv NaN _ = NaN"
| "ddiv _ NaN = NaN"
| "ddiv (Num a) _ = Num 0"
| "ddiv PInf (Num b) = dinf (0 \<le> b)"
| "ddiv NInf (Num b) = dinf (b < 0)"
| "ddiv _ _ = NaN"

fun dsqrt :: "double \<Rightarrow> double" where
  "dsqrt (Num a) = (if a < 0 then NaN else Num (sqrt a))"
| "dsqrt PInf = PInf"
| "dsqrt NInf = NaN"
| "dsqrt NaN = NaN"

text \<open>\<open>dge a b\<close> is the comparison \<^verbatim>\<open>a >= b\<close>.\<close>

fun dge :: "double \<Rightarrow> double \<Rightarrow> bool" where
  "dge (Num a) (Num b) = (b \<le> a)"
| "dge NaN _ = False"
| "dge _ NaN = False"
| "dge PInf _ = True"
| "dge _ NInf = True"
| "dge _ _ = False"

text \<open>The conversion of an unsigned integer to \<^verbatim>\<open>double\<close>.\<close>

definition double_of_nat :: "nat \<Rightarrow> double" where
  "double_of_nat n = Num (real n)"

text \<open>
  The arithmetic of \<^verbatim>\<open>double\<close> as a parameter: the constant \<^verbatim>\<open>0.0\<close>, the operations
  \<^verbatim>\<open>+\<close>, \<^verbatim>\<open>-\<close>, \<^verbatim>\<open>*\<close>, \<^verbatim>\<open>/\<close> and \<^verbatim>\<open>sqrt\<close>, and the conversion of a container size.
  Nothing is assumed of them, so what holds for every such arithmetic holds for the
  one of the machine, with its rounding and its overflow.
\<close>

record 'd Arith =
  ar_zero :: 'd
  ar_add :: "'d \<Rightarrow> 'd \<Rightarrow> 'd"
  ar_sub :: "'d \<Rightarrow> 'd \<Rightarrow> 'd"
  ar_mul :: "'d \<Rightarrow> 'd \<Rightarrow> 'd"
  ar_div :: "'d \<Rightarrow> 'd \<Rightarrow> 'd"
  ar_sqrt :: "'d \<Rightarrow> 'd"
  ar_of_size :: "nat \<Rightarrow> 'd"

text \<open>The operations above, as one arithmetic.\<close>

definition double_arith :: "double Arith" where
  "double_arith =
     \<lparr>ar_zero = Num 0, ar_add = dadd, ar_sub = dsub, ar_mul = dmul, ar_div = ddiv,
      ar_sqrt = dsqrt, ar_of_size = double_of_nat\<rparr>"

section \<open>Constants and the reward curve\<close>

text \<open>\<^verbatim>\<open>constexpr double xmrUnit = 1e12;\<close>\<close>

definition xmrUnit :: real where
  "xmrUnit = 10 ^ 12"

text \<open>\<^verbatim>\<open>constexpr BlockReward moneySupply = UINT64_MAX;\<close>\<close>

definition moneySupply :: BlockReward where
  "moneySupply = 0xFFFFFFFFFFFFFFFF"

text \<open>
  \<^verbatim>\<open>operator "" _xmr(long double xmr) { return (xmr * xmrUnit) + 0.5; }\<close>: the
  conversion of the sum to \<^verbatim>\<open>uint64_t\<close> drops the fraction.
\<close>

definition xmr :: "real \<Rightarrow> BlockReward" where
  "xmr x = word_of_nat (nat \<lfloor>x * xmrUnit + 0.5\<rfloor>)"

definition getBaseReward :: "BlockReward \<Rightarrow> BlockReward" where
  "getBaseReward totalSupply = drop_bit 18 (moneySupply - totalSupply)"

text \<open>\<^verbatim>\<open>constexpr BlockReward tailEmission = 0.6_xmr;\<close>\<close>

definition tailEmission :: BlockReward where
  "tailEmission = xmr 0.6"

section \<open>Blocks and pools\<close>

text \<open>
  The pointer \<^verbatim>\<open>const Pool* minedBy_\<close> is either null or points at an element of the
  pool vector of the network: it is the index of that element, or \<open>None\<close>.
  Identifiers cannot end in an underscore here, so each member drops the one it has in
  the source.
\<close>

record 'h Block =
  minedBy :: "nat option"
  reward :: BlockReward
  height :: 'h

text \<open>The default constructor \<^verbatim>\<open>Block()\<close>.\<close>

definition Block0 :: "'w::len Height Block" where
  "Block0 = \<lparr>minedBy = None, reward = getBaseReward 0, height = 0\<rparr>"

definition getReward :: "'h Block \<Rightarrow> BlockReward" where
  "getReward b = reward b"

record 'h Pool =
  name :: string
  hashrate :: double
  rewards :: BlockReward
  blocks :: 'h

text \<open>The constructor \<^verbatim>\<open>Pool(name, hashrate)\<close>.\<close>

definition mkPool :: "string \<Rightarrow> double \<Rightarrow> 'w::len Height Pool" where
  "mkPool n h = \<lparr>name = n, hashrate = h, rewards = 0, blocks = 0\<rparr>"

definition addBlock :: "'w::len Height Pool \<Rightarrow> 'w Height Block \<Rightarrow> 'w Height Pool" where
  "addBlock p b = p\<lparr>rewards := rewards p + getReward b, blocks := blocks p + 1\<rparr>"

definition getHashrate :: "'h Pool \<Rightarrow> double" where
  "getHashrate p = hashrate p"

definition getBlocks :: "'h Pool \<Rightarrow> 'h" where
  "getBlocks p = blocks p"

definition getRewards :: "'h Pool \<Rightarrow> BlockReward" where
  "getRewards p = rewards p"

section \<open>Statistics\<close>

record StatsSet =
  name :: string
  "values" :: "double list"

text \<open>The constructor \<^verbatim>\<open>StatsSet(name)\<close>: no value yet.\<close>

definition mkStatsSet :: "string \<Rightarrow> StatsSet" where
  "mkStatsSet n = \<lparr>name = n, values = []\<rparr>"

definition addValue :: "StatsSet \<Rightarrow> double \<Rightarrow> StatsSet" where
  "addValue s v = s\<lparr>values := values s @ [v]\<rparr>"

text \<open>
  \<^verbatim>\<open>StatsSet::printStats\<close> writes the name, the mean and \<^verbatim>\<open>stddev\<close> to the stream: the
  result is these three values.  Each loop adds to its accumulator from the left, and
  \<^verbatim>\<open>values_.size()\<close> is converted to \<^verbatim>\<open>double\<close> at each division.
\<close>

definition StatsSet_printStats :: "StatsSet \<Rightarrow> string \<times> double \<times> double" where
  "StatsSet_printStats s =
     (let sum = foldl (\<lambda>sum val. dadd sum val) (Num 0) (values s);
          mean = ddiv sum (double_of_nat (length (values s)));
          varsum = foldl (\<lambda>varsum val. dadd varsum (dmul (dsub val mean) (dsub val mean)))
                     (Num 0) (values s);
          var = ddiv (ddiv varsum (double_of_nat (length (values s))))
                  (double_of_nat (length (values s)));
          stddev = dsqrt var
      in (name s, mean, stddev))"

text \<open>
  \<^verbatim>\<open>StatsSet::printStats\<close> once more, on a name and its values, with the arithmetic of
  \<^verbatim>\<open>double\<close> as a parameter.
\<close>

definition printStats_with :: "'d Arith \<Rightarrow> string \<Rightarrow> 'd list \<Rightarrow> string \<times> 'd \<times> 'd" where
  "printStats_with ar nm vals =
     (let sum = foldl (\<lambda>sum val. ar_add ar sum val) (ar_zero ar) vals;
          mean = ar_div ar sum (ar_of_size ar (length vals));
          varsum = foldl (\<lambda>varsum val.
                       ar_add ar varsum (ar_mul ar (ar_sub ar val mean) (ar_sub ar val mean)))
                     (ar_zero ar) vals;
          var = ar_div ar (ar_div ar varsum (ar_of_size ar (length vals)))
                  (ar_of_size ar (length vals));
          stddev = ar_sqrt ar var
      in (nm, mean, stddev))"

record PoolStats =
  name :: string
  hashrate :: double
  blockCounts :: StatsSet
  blockRewards :: StatsSet

text \<open>The constructor \<^verbatim>\<open>PoolStats(name, hashrate)\<close>.\<close>

definition mkPoolStats :: "string \<Rightarrow> double \<Rightarrow> PoolStats" where
  "mkPoolStats n h =
     \<lparr>name = n, hashrate = h,
      blockCounts = mkStatsSet ''blocks'', blockRewards = mkStatsSet ''reward''\<rparr>"

definition getPool :: "PoolStats \<Rightarrow> 'w::len Height Pool" where
  "getPool st = mkPool (name st) (hashrate st)"

definition accumulate :: "PoolStats \<Rightarrow> 'w::len Height Pool \<Rightarrow> PoolStats" where
  "accumulate st pool =
     st\<lparr>blockCounts := addValue (blockCounts st) (double_of_nat (unat (getBlocks pool))),
        blockRewards := addValue (blockRewards st)
           (ddiv (double_of_nat (unat (getRewards pool))) (Num xmrUnit))\<rparr>"

definition PoolStats_printStats ::
  "PoolStats \<Rightarrow> string \<times> (string \<times> double \<times> double) \<times> (string \<times> double \<times> double)" where
  "PoolStats_printStats st =
     (name st, StatsSet_printStats (blockCounts st), StatsSet_printStats (blockRewards st))"

section \<open>The network\<close>

text \<open>
  \<^verbatim>\<open>pools_\<close> is a reference to the vector of the caller; the network is the only one
  to change it during a run, so the list is a component of the state.  The generator
  and its distribution are the library's; \<open>rng\<close> is the sequence of values that
  \<^verbatim>\<open>distr_(rng_)\<close> is still to return.
\<close>

record 'h Network =
  height :: 'h
  "supply" :: BlockReward
  pools :: "'h Pool list"
  rng :: "nat \<Rightarrow> double"

definition getDouble :: "'h Network \<Rightarrow> double \<times> 'h Network" where
  "getDouble net = (rng net 0, net\<lparr>rng := (\<lambda>n. rng net (Suc n))\<rparr>)"

definition getBlockReward :: "'h Network \<Rightarrow> BlockReward" where
  "getBlockReward net =
     (let r = getBaseReward (supply net)
      in if r < tailEmission then tailEmission else r)"

text \<open>
  The loop of \<^verbatim>\<open>mineBlock\<close> over the pools: \<open>i\<close> is the position of the iterator,
  and the result is the pool that \<^verbatim>\<open>pool\<close> points at when the loop is left.
\<close>

fun mineBlock_loop :: "'h Pool list \<Rightarrow> nat \<Rightarrow> double \<Rightarrow> double \<Rightarrow> nat option" where
  "mineBlock_loop [] i probe pivot = None"
| "mineBlock_loop (p # ps) i probe pivot =
     (let probe' = dadd probe (getHashrate p)
      in if dge probe' pivot then Some i
         else mineBlock_loop ps (Suc i) probe' pivot)"

definition mineBlock :: "'w::len Height Network \<Rightarrow> 'w Height Block \<times> 'w Height Network" where
  "mineBlock net =
     (let (pivot, net1) = getDouble net;
          pool = mineBlock_loop (pools net1) 0 (Num 0) pivot;
          net2 = net1\<lparr>height := height net1 + 1\<rparr>;
          b = \<lparr>minedBy = pool, reward = getBlockReward net2, Block.height = height net2\<rparr>;
          net3 = net2\<lparr>supply := supply net2 + getReward b\<rparr>
      in (b, case pool of
               None \<Rightarrow> net3
             | Some i \<Rightarrow> net3\<lparr>pools := (pools net3)[i := addBlock (pools net3 ! i) b]\<rparr>))"

section \<open>One run\<close>

text \<open>
  The loop \<^verbatim>\<open>for (Block b; b.getReward() > tailEmission; b = net.mineBlock()) {}\<close>:
  its state is the block \<open>b\<close> and the network, and \<open>None\<close> is a loop that never ends.
\<close>

definition loop_cond :: "'h Block \<times> 'h Network \<Rightarrow> bool" where
  "loop_cond s = (tailEmission < getReward (fst s))"

definition loop_step ::
  "'w::len Height Block \<times> 'w Height Network \<Rightarrow> 'w Height Block \<times> 'w Height Network" where
  "loop_step s = mineBlock (snd s)"

definition mining_loop ::
  "'w::len Height Network \<Rightarrow> ('w Height Block \<times> 'w Height Network) option" where
  "mining_loop net = while_option loop_cond loop_step (Block0, net)"

text \<open>
  The network that \<^verbatim>\<open>simulateUntilTailEmission\<close> constructs.  \<open>gen seed\<close> stands for
  the values that the library generator draws once it is seeded with \<open>seed\<close>.
\<close>

definition initialNetwork ::
  "('s \<Rightarrow> nat \<Rightarrow> double) \<Rightarrow> PoolStats list \<Rightarrow> 's \<Rightarrow> 'w::len Height \<Rightarrow> BlockReward
     \<Rightarrow> 'w Height Network" where
  "initialNetwork gen stats seed startingHeight startingSupply =
     \<lparr>height = startingHeight, supply = startingSupply,
      pools = map getPool stats, rng = gen seed\<rparr>"

definition simulateUntilTailEmission ::
  "('s \<Rightarrow> nat \<Rightarrow> double) \<Rightarrow> PoolStats list \<Rightarrow> 's \<Rightarrow> 'w::len Height \<Rightarrow> BlockReward
     \<Rightarrow> PoolStats list option" where
  "simulateUntilTailEmission gen stats seed startingHeight startingSupply =
     (case mining_loop (initialNetwork gen stats seed startingHeight startingSupply) of
        None \<Rightarrow> None
      | Some (b, net) \<Rightarrow> Some (map (\<lambda>(st, pool). accumulate st pool) (zip stats (pools net))))"

section \<open>Notions of the specification\<close>

text \<open>The state of the loop after \<open>k\<close> blocks; its block is the \<open>k\<close>-th block mined.\<close>

definition run_state ::
  "'w::len Height Network \<Rightarrow> nat \<Rightarrow> 'w Height Block \<times> 'w Height Network" where
  "run_state net k = (loop_step ^^ k) (Block0, net)"

text \<open>The run mines at least \<open>k\<close> blocks: each of the first \<open>k\<close> checks lets the loop go on.\<close>

definition mines :: "'w::len Height Network \<Rightarrow> nat \<Rightarrow> bool" where
  "mines net k = (\<forall>j < k. loop_cond (run_state net j))"

text \<open>The reward minted by the first \<open>k\<close> blocks, and the part of it that no pool won.\<close>

definition minted :: "'w::len Height Network \<Rightarrow> nat \<Rightarrow> nat" where
  "minted net k = (\<Sum>j \<leftarrow> [1..<Suc k]. unat (getReward (fst (run_state net j))))"

definition residual :: "'w::len Height Network \<Rightarrow> nat \<Rightarrow> nat" where
  "residual net k =
     (\<Sum>j \<leftarrow> [1..<Suc k]. if minedBy (fst (run_state net j)) = None
                          then unat (getReward (fst (run_state net j))) else 0)"

text \<open>The reward that the pools of a network have accrued.\<close>

definition accrued :: "'h Pool list \<Rightarrow> nat" where
  "accrued ps = (\<Sum>p \<leftarrow> ps. unat (getRewards p))"

text \<open>The value of \<^verbatim>\<open>probe\<close> when the pool at position \<open>k\<close> has been added.\<close>

definition probe_at :: "'h Pool list \<Rightarrow> nat \<Rightarrow> double" where
  "probe_at ps k = foldl dadd (Num 0) (map getHashrate (take (Suc k) ps))"

text \<open>The error estimate in the words of the specification, on real numbers.\<close>

definition spec_mean :: "real list \<Rightarrow> real" where
  "spec_mean xs = sum_list xs / real (length xs)"

definition spec_error :: "real list \<Rightarrow> real" where
  "spec_error xs =
     sqrt ((\<Sum>x \<leftarrow> xs. (x - spec_mean xs)\<^sup>2) / real (length xs)) / real (length xs)"

text \<open>
  The formulas of the amended claim, in a given arithmetic: a sum adds its terms to
  \<^verbatim>\<open>0.0\<close> in the order of the sequence, the mean is \<open>(\<Sum> samples) / N\<close>, and the error is
  \<open>sqrt ((\<Sum> (sample - mean)\<^sup>2) / N / N)\<close>.
\<close>

definition formula_sum :: "'d Arith \<Rightarrow> 'd list \<Rightarrow> 'd" where
  "formula_sum ar xs = foldl (ar_add ar) (ar_zero ar) xs"

definition formula_mean :: "'d Arith \<Rightarrow> 'd list \<Rightarrow> 'd" where
  "formula_mean ar xs = ar_div ar (formula_sum ar xs) (ar_of_size ar (length xs))"

definition formula_error :: "'d Arith \<Rightarrow> 'd list \<Rightarrow> 'd" where
  "formula_error ar xs =
     ar_sqrt ar
       (ar_div ar
          (ar_div ar
             (formula_sum ar
                (map (\<lambda>x. ar_mul ar (ar_sub ar x (formula_mean ar xs))
                                    (ar_sub ar x (formula_mean ar xs))) xs))
             (ar_of_size ar (length xs)))
          (ar_of_size ar (length xs)))"

text \<open>The arithmetic of the real numbers, where no operation rounds.\<close>

definition real_arith :: "real Arith" where
  "real_arith =
     \<lparr>ar_zero = 0, ar_add = (+), ar_sub = (-), ar_mul = (*), ar_div = (/),
      ar_sqrt = sqrt, ar_of_size = real\<rparr>"

section \<open>Example inputs\<close>

text \<open>
  The two pools of \<^verbatim>\<open>main\<close>, and a network over them at the starting height of
  \<^verbatim>\<open>main\<close>, with a given supply and given draws of the generator.
\<close>

definition ex_stats :: "PoolStats list" where
  "ex_stats = [mkPoolStats ''A'' (Num 0.3), mkPoolStats ''B'' (Num 0.003)]"

definition ex_draws :: "nat \<Rightarrow> double" where
  "ex_draws n = (if n = 0 then Num 0.3015 else Num 0.9)"

definition ex_net :: "BlockReward \<Rightarrow> (nat \<Rightarrow> double) \<Rightarrow> 32 Height Network" where
  "ex_net S draws = initialNetwork (\<lambda>seed. draws) ex_stats () 2082536 S"

section \<open>The reward curve\<close>

lemma tailEmission_value: "tailEmission = 600000000000"
  by (simp add: tailEmission_def xmr_def xmrUnit_def)

lemma uint_moneySupply: "uint moneySupply = 2 ^ 64 - 1"
  by (simp add: moneySupply_def)

lemma uint_le_moneySupply: "uint (S :: BlockReward) \<le> uint moneySupply"
proof -
  have "uint S < 2 ^ 64"
    using uint_bounded [of S] by simp
  then show ?thesis
    by (simp add: uint_moneySupply)
qed

lemma uint_moneySupply_minus:
  "uint (moneySupply - S) = uint moneySupply - uint S"
  using uint_le_moneySupply [of S] by (simp add: uint_sub_lem)

lemma le_moneySupply: "(S :: BlockReward) \<le> moneySupply"
  by (simp add: word_le_def uint_le_moneySupply)

lemma unat_getBaseReward:
  "unat (getBaseReward S) = (unat moneySupply - unat S) div 2 ^ 18"
  unfolding getBaseReward_def unat_drop_bit_eq
  by (simp add: drop_bit_eq_div unat_sub le_moneySupply)

lemma uint_getBaseReward:
  "uint (getBaseReward S) = (uint moneySupply - uint S) div 2 ^ 18"
proof -
  have "unat S \<le> unat moneySupply"
    using le_moneySupply [of S] by (simp add: word_le_nat_alt)
  then have "int (unat moneySupply - unat S) = uint moneySupply - uint S"
    by simp
  moreover have "uint (getBaseReward S) = int (unat (getBaseReward S))"
    by simp
  ultimately show ?thesis
    by (simp add: unat_getBaseReward zdiv_int)
qed

lemma getBlockReward_max:
  "getBlockReward net = max (getBaseReward (supply net)) tailEmission"
  by (auto simp add: getBlockReward_def Let_def max_def)

lemma getBaseReward_antimono: "S \<le> S' \<Longrightarrow> getBaseReward S' \<le> getBaseReward S"
  by (simp add: word_le_nat_alt unat_getBaseReward div_le_mono)

lemma getBlockReward_antimono:
  "supply net \<le> supply net' \<Longrightarrow> getBlockReward net' \<le> getBlockReward net"
  using getBaseReward_antimono [of "supply net" "supply net'"]
  by (auto simp add: getBlockReward_max max_def)

text \<open>
  Claim C2.  For every supply \<open>S\<close> the reward of the next block is
  \<open>max ((C - S) div 2^18) F\<close>, where the subtraction is the one of the integers: the
  reward is at least \<open>F\<close>, and it does not increase when the supply increases.
\<close>

theorem getBlockReward_curve:
  "uint (getBlockReward net) =
     max ((uint moneySupply - uint (supply net)) div 2 ^ 18) (uint tailEmission)
   \<and> tailEmission \<le> getBlockReward net
   \<and> (supply net \<le> supply net' \<longrightarrow> getBlockReward net' \<le> getBlockReward net)"
proof (intro conjI)
  have "uint (getBlockReward net) =
          max (uint (getBaseReward (supply net))) (uint tailEmission)"
    by (simp add: getBlockReward_max max_def word_le_def)
  then show "uint (getBlockReward net) =
     max ((uint moneySupply - uint (supply net)) div 2 ^ 18) (uint tailEmission)"
    by (simp only: uint_getBaseReward)
  show "tailEmission \<le> getBlockReward net"
    by (simp add: getBlockReward_max)
  show "supply net \<le> supply net' \<longrightarrow> getBlockReward net' \<le> getBlockReward net"
    by (simp add: getBlockReward_antimono)
qed

theorem getBlockReward_curve_witness:
  "getBlockReward (ex_net 0 ex_draws) = 70368744177663
   \<and> getBlockReward (ex_net 18446744073709551615 ex_draws) = 600000000000
   \<and> getBlockReward (ex_net 18446744073709551615 ex_draws)
       \<le> getBlockReward (ex_net 0 ex_draws)"
  using getBlockReward_curve [of "ex_net 0 ex_draws" "ex_net 18446744073709551615 ex_draws"]
  by (simp add: ex_net_def initialNetwork_def getBlockReward_def getBaseReward_def
      moneySupply_def tailEmission_value)

text \<open>
  Claim C10.  \<open>getBaseReward\<close> is defined on every 64-bit supply: the subtraction from
  \<open>moneySupply\<close> never wraps around, its result at \<open>moneySupply\<close> itself is 0, and there
  \<open>getBlockReward\<close> is the floor \<open>tailEmission\<close>.
\<close>

theorem getBaseReward_total:
  "uint (moneySupply - S) = uint moneySupply - uint S
   \<and> 0 \<le> uint moneySupply - uint S
   \<and> getBaseReward moneySupply = 0
   \<and> getBlockReward (net\<lparr>supply := moneySupply\<rparr>) = tailEmission"
  using uint_le_moneySupply [of S]
  by (simp add: uint_moneySupply_minus getBaseReward_def getBlockReward_def tailEmission_value)

section \<open>One block\<close>

lemma mineBlock_reward: "getReward (fst (mineBlock net)) = getBlockReward net"
  by (simp add: mineBlock_def getDouble_def Let_def getReward_def getBlockReward_def)

lemma mineBlock_minedBy:
  "minedBy (fst (mineBlock net)) = mineBlock_loop (pools net) 0 (Num 0) (rng net 0)"
  by (simp add: mineBlock_def getDouble_def Let_def)

lemma mineBlock_block_height: "Block.height (fst (mineBlock net)) = height net + 1"
  by (simp add: mineBlock_def getDouble_def Let_def)

lemma mineBlock_height: "height (snd (mineBlock net)) = height net + 1"
  by (simp add: mineBlock_def getDouble_def Let_def split: option.split)

lemma mineBlock_supply: "supply (snd (mineBlock net)) = supply net + getBlockReward net"
  by (simp add: mineBlock_def getDouble_def Let_def getReward_def getBlockReward_def
      split: option.split)

lemma mineBlock_rng: "rng (snd (mineBlock net)) = (\<lambda>n. rng net (Suc n))"
  by (simp add: mineBlock_def getDouble_def Let_def split: option.split)

lemma mineBlock_pools:
  "pools (snd (mineBlock net)) =
     (case minedBy (fst (mineBlock net)) of
        None \<Rightarrow> pools net
      | Some i \<Rightarrow> (pools net)[i := addBlock (pools net ! i) (fst (mineBlock net))])"
  by (simp add: mineBlock_def getDouble_def Let_def split: option.split)

text \<open>The addition to the supply stays in range exactly when the floor still fits.\<close>

lemma unat_tailEmission: "unat tailEmission = 600000000000"
  by (simp add: tailEmission_value)

lemma unat_moneySupply: "unat moneySupply = 18446744073709551615"
  by (simp add: moneySupply_def)

lemma unat_getBlockReward:
  "unat (getBlockReward net) = max ((unat moneySupply - unat (supply net)) div 2 ^ 18) (unat tailEmission)"
proof -
  have "unat (getBlockReward net) =
          max (unat (getBaseReward (supply net))) (unat tailEmission)"
    by (simp add: getBlockReward_max max_def word_le_nat_alt)
  then show ?thesis
    by (simp only: unat_getBaseReward)
qed

lemma reward_fits_iff:
  "unat (supply net) + unat (getBlockReward net) \<le> unat moneySupply
   \<longleftrightarrow> unat (supply net) + unat tailEmission \<le> unat moneySupply"
proof -
  have le: "unat (supply net) \<le> unat moneySupply"
    using le_moneySupply [of "supply net"] by (simp add: word_le_nat_alt)
  define d where "d = unat moneySupply - unat (supply net)"
  have d: "unat (supply net) + d = unat moneySupply"
    using le by (simp add: d_def)
  have q: "d div 2 ^ 18 \<le> d"
    by simp
  show ?thesis
    unfolding unat_getBlockReward d_def [symmetric] using d q
    by (auto simp: max_def)
qed

lemma unat_plus_fits:
  "unat (a + b :: BlockReward) = unat a + unat b \<longleftrightarrow> unat a + unat b \<le> unat moneySupply"
proof -
  have "unat a + unat b < 2 ^ 64 \<longleftrightarrow> unat a + unat b \<le> unat moneySupply"
    unfolding unat_moneySupply by (simp, linarith)
  then show ?thesis
    using unat_add_lem [of a b] by auto
qed

lemma unat_Suc_height:
  fixes h :: "'w::len word"
  assumes "h \<noteq> - 1"
  shows "unat (h + 1) = unat h + 1"
proof -
  have nz: "h + 1 \<noteq> 0"
    using assms max_word_wrap by blast
  have e: "unat (h + 1) = (unat h + 1) mod 2 ^ LENGTH('w)"
    by (simp add: unat_word_ariths)
  have "unat h < 2 ^ LENGTH('w)"
    by (rule unsigned_less)
  then have "unat h + 1 < 2 ^ LENGTH('w) \<or> unat h + 1 = 2 ^ LENGTH('w)"
    by linarith
  then show ?thesis
  proof
    assume "unat h + 1 < 2 ^ LENGTH('w)"
    then show ?thesis by (simp add: e)
  next
    assume "unat h + 1 = 2 ^ LENGTH('w)"
    then have "unat (h + 1) = 0" by (simp add: e)
    then have "h + 1 = 0" by (simp add: unat_eq_0)
    with nz show ?thesis by simp
  qed
qed

text \<open>
  Claim C3, as amended.  A call of \<open>mineBlock\<close> computes the reward of its block from
  the supply before the call, and adds 1 to the height and the reward to the supply in
  the arithmetic of the two types, which wraps around.  The height increases by exactly
  1 unless it is the largest value of its type, and the supply increases by exactly the
  reward if and only if \<open>supply + tailEmission \<le> moneySupply\<close> before the call.
\<close>

theorem mineBlock_advance:
  "getReward (fst (mineBlock net)) = getBlockReward net
   \<and> Block.height (fst (mineBlock net)) = height net + 1
   \<and> height (snd (mineBlock net)) = height net + 1
   \<and> supply (snd (mineBlock net)) = supply net + getReward (fst (mineBlock net))
   \<and> (height net \<noteq> - 1 \<longrightarrow> unat (height (snd (mineBlock net))) = unat (height net) + 1)
   \<and> (unat (supply (snd (mineBlock net)))
          = unat (supply net) + unat (getReward (fst (mineBlock net)))
        \<longleftrightarrow> unat (supply net) + unat tailEmission \<le> unat moneySupply)"
proof (intro conjI)
  show "height net \<noteq> - 1 \<longrightarrow> unat (height (snd (mineBlock net))) = unat (height net) + 1"
    by (simp add: mineBlock_height unat_Suc_height)
  show "unat (supply (snd (mineBlock net)))
          = unat (supply net) + unat (getReward (fst (mineBlock net)))
        \<longleftrightarrow> unat (supply net) + unat tailEmission \<le> unat moneySupply"
    by (simp only: mineBlock_supply mineBlock_reward unat_plus_fits reward_fits_iff)
qed (simp_all add: mineBlock_reward mineBlock_block_height mineBlock_height mineBlock_supply)

lemma ex_net_simps:
  "height (ex_net S d) = 2082536" "supply (ex_net S d) = S" "rng (ex_net S d) = d"
  by (simp_all add: ex_net_def initialNetwork_def)

theorem mineBlock_advance_witness:
  "unat (height (snd (mineBlock (ex_net 18289457673709289471 ex_draws)))) = 2082537
   \<and> getReward (fst (mineBlock (ex_net 18289457673709289471 ex_draws))) = 600000000001
   \<and> unat (supply (snd (mineBlock (ex_net 18289457673709289471 ex_draws))))
       = 18289457673709289471 + 600000000001"
  using mineBlock_advance [of "ex_net 18289457673709289471 ex_draws"]
  by (simp add: ex_net_simps getBlockReward_def getBaseReward_def moneySupply_def
      tailEmission_value)

text \<open>
  At the supply \<open>moneySupply\<close> the block carries the reward \<open>tailEmission\<close>, and the
  supply after the call is smaller than before.
\<close>

theorem mineBlock_advance_counterexample:
  "supply (snd (mineBlock (ex_net 18446744073709551615 ex_draws))) = 599999999999
   \<and> getReward (fst (mineBlock (ex_net 18446744073709551615 ex_draws))) = 600000000000
   \<and> unat (supply (snd (mineBlock (ex_net 18446744073709551615 ex_draws))))
       < unat (supply (ex_net 18446744073709551615 ex_draws))"
  by (simp add: mineBlock_supply mineBlock_reward ex_net_simps getBlockReward_def
      getBaseReward_def moneySupply_def tailEmission_value)

section \<open>The winner of a block\<close>

text \<open>The value of \<^verbatim>\<open>probe\<close> after \<open>m + 1\<close> pools, when the loop starts from \<open>pr\<close>.\<close>

lemma mineBlock_loop_Some:
  "mineBlock_loop ps i pr pivot = Some k \<longleftrightarrow>
     (\<exists>m. k = i + m \<and> m < length ps
        \<and> dge (foldl dadd pr (map getHashrate (take (Suc m) ps))) pivot
        \<and> (\<forall>j < m. \<not> dge (foldl dadd pr (map getHashrate (take (Suc j) ps))) pivot))"
proof (induction ps arbitrary: i pr)
  case Nil
  then show ?case by simp
next
  case (Cons p ps)
  let ?pr = "dadd pr (getHashrate p)"
  let ?f = "\<lambda>m. dge (foldl dadd pr (map getHashrate (take (Suc m) (p # ps)))) pivot"
  let ?g = "\<lambda>m. dge (foldl dadd ?pr (map getHashrate (take (Suc m) ps))) pivot"
  have f0: "?f 0 = dge ?pr pivot" by simp
  have fS: "\<And>m. ?f (Suc m) = ?g m" by simp
  show ?case
  proof (cases "dge ?pr pivot")
    case True
    have "(\<exists>m. k = i + m \<and> m < length (p # ps) \<and> ?f m \<and> (\<forall>j < m. \<not> ?f j)) \<longleftrightarrow> k = i"
    proof
      assume "\<exists>m. k = i + m \<and> m < length (p # ps) \<and> ?f m \<and> (\<forall>j < m. \<not> ?f j)"
      then obtain m where m: "k = i + m" "\<forall>j < m. \<not> ?f j" by blast
      have "m = 0"
      proof (rule ccontr)
        assume "m \<noteq> 0"
        then have "\<not> ?f 0" using m(2) by blast
        with True show False by simp
      qed
      with m show "k = i" by simp
    next
      assume "k = i"
      with True show "\<exists>m. k = i + m \<and> m < length (p # ps) \<and> ?f m \<and> (\<forall>j < m. \<not> ?f j)"
        by (intro exI [of _ 0]) simp
    qed
    with True show ?thesis by (auto simp add: Let_def)
  next
    case False
    have "(\<exists>m. k = i + m \<and> m < length (p # ps) \<and> ?f m \<and> (\<forall>j < m. \<not> ?f j))
          \<longleftrightarrow> (\<exists>m. k = Suc i + m \<and> m < length ps \<and> ?g m \<and> (\<forall>j < m. \<not> ?g j))"
    proof
      assume "\<exists>m. k = i + m \<and> m < length (p # ps) \<and> ?f m \<and> (\<forall>j < m. \<not> ?f j)"
      then obtain m where m: "k = i + m" "m < length (p # ps)" "?f m" "\<forall>j < m. \<not> ?f j"
        by blast
      from m(3) False obtain m' where m': "m = Suc m'"
        by (cases m) simp_all
      have "\<forall>j < m'. \<not> ?g j"
      proof (intro allI impI)
        fix j assume "j < m'"
        then have "\<not> ?f (Suc j)" using m(4) m' by blast
        then show "\<not> ?g j" by simp
      qed
      moreover have "?g m'" using m(3) m' by simp
      ultimately show "\<exists>m. k = Suc i + m \<and> m < length ps \<and> ?g m \<and> (\<forall>j < m. \<not> ?g j)"
        using m(1,2) m' by (intro exI [of _ m']) simp
    next
      assume "\<exists>m. k = Suc i + m \<and> m < length ps \<and> ?g m \<and> (\<forall>j < m. \<not> ?g j)"
      then obtain m where m: "k = Suc i + m" "m < length ps" "?g m" "\<forall>j < m. \<not> ?g j"
        by blast
      have "\<forall>j < Suc m. \<not> ?f j"
      proof (intro allI impI)
        fix j assume j: "j < Suc m"
        show "\<not> ?f j"
        proof (cases j)
          case 0
          with False show ?thesis by simp
        next
          case (Suc j')
          with j m(4) show ?thesis by simp
        qed
      qed
      moreover have "?f (Suc m)" using m(3) by simp
      ultimately show "\<exists>m. k = i + m \<and> m < length (p # ps) \<and> ?f m \<and> (\<forall>j < m. \<not> ?f j)"
        using m(1,2) by (intro exI [of _ "Suc m"]) simp
    qed
    with False Cons.IH [of "Suc i" ?pr] show ?thesis
      by (simp add: Let_def)
  qed
qed


lemma mineBlock_loop_None:
  "mineBlock_loop ps i pr pivot = None \<longleftrightarrow>
     (\<forall>m < length ps. \<not> dge (foldl dadd pr (map getHashrate (take (Suc m) ps))) pivot)"
proof (induction ps arbitrary: i pr)
  case Nil
  then show ?case by simp
next
  case (Cons p ps)
  show ?case
    using Cons.IH [of "Suc i" "dadd pr (getHashrate p)"]
    by (simp add: Let_def All_less_Suc2)
qed

lemma dge_refl: "dge (Num x) (Num x)"
  by simp

text \<open>
  Claim C4.  The pool that wins a block is the first one, in the order of the list,
  at which \<^verbatim>\<open>probe\<close> has reached the pivot; a probe equal to the pivot wins for the pool
  just added.  When no probe reaches the pivot the block has no winner, and the pools
  are as they were.
\<close>

theorem mineBlock_winner:
  "(minedBy (fst (mineBlock net)) = Some k \<longleftrightarrow>
      k < length (pools net) \<and> dge (probe_at (pools net) k) (rng net 0)
      \<and> (\<forall>j < k. \<not> dge (probe_at (pools net) j) (rng net 0)))
   \<and> (k < length (pools net) \<and> probe_at (pools net) k = Num x \<and> rng net 0 = Num x
        \<and> (\<forall>j < k. \<not> dge (probe_at (pools net) j) (rng net 0))
       \<longrightarrow> minedBy (fst (mineBlock net)) = Some k)
   \<and> (minedBy (fst (mineBlock net)) = None \<longleftrightarrow>
        (\<forall>j < length (pools net). \<not> dge (probe_at (pools net) j) (rng net 0)))
   \<and> (minedBy (fst (mineBlock net)) = None \<longrightarrow> pools (snd (mineBlock net)) = pools net)
   \<and> (minedBy (fst (mineBlock net)) = Some k \<longrightarrow>
        pools (snd (mineBlock net))
          = (pools net)[k := addBlock (pools net ! k) (fst (mineBlock net))])"
proof -
  have some: "minedBy (fst (mineBlock net)) = Some k \<longleftrightarrow>
      k < length (pools net) \<and> dge (probe_at (pools net) k) (rng net 0)
      \<and> (\<forall>j < k. \<not> dge (probe_at (pools net) j) (rng net 0))"
    unfolding mineBlock_minedBy mineBlock_loop_Some probe_at_def by auto
  have none: "minedBy (fst (mineBlock net)) = None \<longleftrightarrow>
        (\<forall>j < length (pools net). \<not> dge (probe_at (pools net) j) (rng net 0))"
    unfolding mineBlock_minedBy mineBlock_loop_None probe_at_def by simp
  have tie: "k < length (pools net) \<and> probe_at (pools net) k = Num x \<and> rng net 0 = Num x
        \<and> (\<forall>j < k. \<not> dge (probe_at (pools net) j) (rng net 0))
       \<longrightarrow> minedBy (fst (mineBlock net)) = Some k"
    using some dge_refl [of x] by auto
  have pools: "(minedBy (fst (mineBlock net)) = None \<longrightarrow> pools (snd (mineBlock net)) = pools net)
   \<and> (minedBy (fst (mineBlock net)) = Some k \<longrightarrow>
        pools (snd (mineBlock net))
          = (pools net)[k := addBlock (pools net ! k) (fst (mineBlock net))])"
    by (simp add: mineBlock_pools [of net])
  from some tie none pools show ?thesis by blast
qed

lemma pools_ex_net:
  "pools (ex_net S d) = [mkPool ''A'' (Num 0.3), mkPool ''B'' (Num 0.003)]"
  by (simp add: ex_net_def initialNetwork_def ex_stats_def getPool_def mkPoolStats_def)

lemma length_pools_ex_net: "length (pools (ex_net S d)) = Suc (Suc 0)"
  by (simp add: pools_ex_net)

lemma probe_at_ex:
  "probe_at (pools (ex_net S d)) 0 = Num 0.3"
  "probe_at (pools (ex_net S d)) (Suc 0) = Num 0.303"
  by (simp_all add: pools_ex_net probe_at_def getHashrate_def mkPool_def)

theorem mineBlock_winner_witness:
  "minedBy (fst (mineBlock (ex_net 0 ex_draws))) = Some 1
   \<and> minedBy (fst (mineBlock (ex_net 0 (\<lambda>n. Num 0.3)))) = Some 0
   \<and> minedBy (fst (mineBlock (ex_net 0 (\<lambda>n. Num 0.9)))) = None
   \<and> pools (snd (mineBlock (ex_net 0 (\<lambda>n. Num 0.9)))) = pools (ex_net 0 (\<lambda>n. Num 0.9))"
proof -
  have w1: "minedBy (fst (mineBlock (ex_net 0 ex_draws))) = Some 1"
    using mineBlock_winner [of "ex_net 0 ex_draws" 1]
    by (simp add: length_pools_ex_net probe_at_ex ex_net_simps ex_draws_def)
  have w2: "minedBy (fst (mineBlock (ex_net 0 (\<lambda>n. Num 0.3)))) = Some 0"
    using mineBlock_winner [of "ex_net 0 (\<lambda>n. Num 0.3)" 0 "0.3"]
    by (simp add: length_pools_ex_net probe_at_ex ex_net_simps)
  have w3: "minedBy (fst (mineBlock (ex_net 0 (\<lambda>n. Num 0.9)))) = None"
    using mineBlock_winner [of "ex_net 0 (\<lambda>n. Num 0.9)"]
    by (simp add: length_pools_ex_net probe_at_ex ex_net_simps All_less_Suc)
  then have w4: "pools (snd (mineBlock (ex_net 0 (\<lambda>n. Num 0.9)))) = pools (ex_net 0 (\<lambda>n. Num 0.9))"
    using mineBlock_winner [of "ex_net 0 (\<lambda>n. Num 0.9)"] by simp
  from w1 w2 w3 w4 show ?thesis by simp
qed

section \<open>The loop of a run\<close>

lemma run_state_0: "run_state net 0 = (Block0, net)"
  by (simp add: run_state_def)

lemma run_state_Suc: "run_state net (Suc k) = mineBlock (snd (run_state net k))"
  by (simp add: run_state_def loop_step_def)

lemma getBaseReward_0: "getBaseReward 0 = 70368744177663"
  by (simp add: getBaseReward_def moneySupply_def)

lemma loop_cond_Block0: "loop_cond (Block0, net)"
  by (simp add: loop_cond_def Block0_def getReward_def getBaseReward_0 tailEmission_value)

text \<open>
  A reward above the floor is the base reward: adding it to the supply does not wrap
  around, and it leaves room for the floor.
\<close>

lemma big_reward:
  assumes "tailEmission < getBlockReward net"
  shows "unat (getBlockReward net) = (unat moneySupply - unat (supply net)) div 2 ^ 18"
    and "0 < unat (getBlockReward net)"
    and "unat (supply net) + unat (getBlockReward net) + unat tailEmission \<le> unat moneySupply"
proof -
  define d where "d = unat moneySupply - unat (supply net)"
  define q where "q = d div 2 ^ 18"
  have le: "unat (supply net) \<le> unat moneySupply"
    using le_moneySupply [of "supply net"] by (simp add: word_le_nat_alt)
  have r: "unat (getBlockReward net) = max q (unat tailEmission)"
    by (simp add: unat_getBlockReward q_def d_def)
  have "unat tailEmission < unat (getBlockReward net)"
    using assms by (simp add: word_less_nat_alt)
  with r have q: "unat (getBlockReward net) = q" "unat tailEmission < q"
    by (auto simp add: max_def split: if_splits)
  show "unat (getBlockReward net) = (unat moneySupply - unat (supply net)) div 2 ^ 18"
    using q(1) by (simp add: q_def d_def)
  show "0 < unat (getBlockReward net)"
    using q by simp
  have "q * 2 ^ 18 \<le> d"
    by (simp add: q_def)
  moreover have "q * 2 \<le> q * 2 ^ 18"
    by simp
  ultimately have "q + unat tailEmission \<le> d"
    using q(2) by linarith
  then show "unat (supply net) + unat (getBlockReward net) + unat tailEmission \<le> unat moneySupply"
    using le q(1) by (simp add: d_def)
qed

lemma big_reward_supply:
  assumes "tailEmission < getBlockReward net"
  shows "unat (supply net + getBlockReward net) = unat (supply net) + unat (getBlockReward net)"
  using big_reward(3) [OF assms] by (simp add: unat_plus_fits)

lemma loop_step_decreases:
  assumes "loop_cond (loop_step s)"
  shows "unat (moneySupply - supply (snd (loop_step s))) < unat (moneySupply - supply (snd s))"
proof -
  let ?net = "snd s"
  have big: "tailEmission < getBlockReward ?net"
    using assms by (simp add: loop_cond_def loop_step_def mineBlock_reward)
  have "unat (moneySupply - supply (snd (loop_step s)))
          = unat moneySupply - (unat (supply ?net) + unat (getBlockReward ?net))"
    by (simp add: loop_step_def mineBlock_supply unat_sub le_moneySupply big_reward_supply [OF big])
  moreover have "unat (moneySupply - supply ?net) = unat moneySupply - unat (supply ?net)"
    by (simp add: unat_sub le_moneySupply)
  ultimately show ?thesis
    using big_reward(2,3) [OF big] by linarith
qed

lemma wf_loop: "wf {(t, s). loop_cond s \<and> t = loop_step s}"
proof (rule wf_subset)
  let ?m = "\<lambda>s :: 'a Height Block \<times> 'a Height Network.
              (if loop_cond s then 1 else 0 :: nat, unat (moneySupply - supply (snd s)))"
  show "wf (inv_image (less_than <*lex*> less_than) ?m)"
    by (intro wf_inv_image wf_lex_prod wf_less_than)
  show "{(t, s). loop_cond s \<and> t = loop_step s}
          \<subseteq> inv_image (less_than <*lex*> less_than) ?m"
    using loop_step_decreases by (auto simp add: inv_image_def split: if_splits)
qed

lemma mining_loop_returns: "\<exists>t. mining_loop net = Some t"
  unfolding mining_loop_def
  by (rule wf_while_option_Some [where P = "\<lambda>s. True"]) (simp_all add: wf_loop)


text \<open>The loop ends at the first state whose block does not exceed the floor.\<close>

lemma mining_loop_least:
  "\<exists>n. mining_loop net = Some (run_state net n) \<and> \<not> loop_cond (run_state net n)
       \<and> (\<forall>k < n. loop_cond (run_state net k))"
proof -
  obtain t where t: "while_option loop_cond loop_step (Block0, net) = Some t"
    using mining_loop_returns [of net] by (auto simp add: mining_loop_def)
  then have ex: "\<exists>k. \<not> loop_cond ((loop_step ^^ k) (Block0, net))"
    by (auto simp add: while_option_def split: if_splits)
  define n where "n = (LEAST k. \<not> loop_cond ((loop_step ^^ k) (Block0, net)))"
  have "mining_loop net = Some (run_state net n)"
    using ex by (simp add: mining_loop_def while_option_def n_def run_state_def)
  moreover have "\<not> loop_cond (run_state net n)"
    unfolding n_def run_state_def using ex by (rule LeastI_ex)
  moreover have "\<forall>k < n. loop_cond (run_state net k)"
    unfolding n_def run_state_def using not_less_Least by blast
  ultimately show ?thesis by blast
qed

text \<open>
  Claim C5.  The loop of a run checks the block it has before it mines the next one,
  and the first block it checks is the one of the default constructor, whose reward is
  the base reward at supply 0.  The run mines \<open>n \<ge> 1\<close> blocks: the reward of the last
  one is at most \<open>tailEmission\<close>, and the reward of every block before it is above.
\<close>

theorem mining_loop_stops:
  "\<exists>n. 1 \<le> n \<and> mining_loop net = Some (run_state net n)
       \<and> getReward (fst (run_state net n)) \<le> tailEmission
       \<and> (\<forall>k < n. tailEmission < getReward (fst (run_state net k)))
       \<and> run_state net 0 = (Block0, net)
       \<and> getReward (fst (run_state net 0)) = getBaseReward 0
       \<and> (\<forall>k < n. run_state net (Suc k) = mineBlock (snd (run_state net k)))"
proof -
  obtain n where n: "mining_loop net = Some (run_state net n)"
      "\<not> loop_cond (run_state net n)" "\<forall>k < n. loop_cond (run_state net k)"
    using mining_loop_least [of net] by blast
  have "n \<noteq> 0"
  proof
    assume "n = 0"
    with n(2) show False
      using loop_cond_Block0 [of net] by (simp add: run_state_0)
  qed
  then have "1 \<le> n" by simp
  moreover have "getReward (fst (run_state net n)) \<le> tailEmission"
    using n(2) by (simp add: loop_cond_def not_less)
  moreover have "\<forall>k < n. tailEmission < getReward (fst (run_state net k))"
    using n(3) by (simp add: loop_cond_def)
  moreover have "getReward (fst (run_state net 0)) = getBaseReward 0"
    by (simp add: run_state_0 Block0_def getReward_def)
  ultimately show ?thesis
    using n(1) run_state_0 [of net] run_state_Suc [of net] by blast
qed

lemma run_state_1: "run_state net 1 = mineBlock net"
  by (simp add: run_state_Suc run_state_0)

lemma run_state_2: "run_state net 2 = mineBlock (snd (mineBlock net))"
  by (simp add: numeral_2_eq_2 run_state_Suc run_state_0)

lemma getBlockReward_eval:
  "supply net = 18289457673709289471 \<Longrightarrow> getBlockReward net = 600000000001"
  "supply net = 18289458273709289472 \<Longrightarrow> getBlockReward net = 600000000000"
  by (simp_all add: getBlockReward_def getBaseReward_def moneySupply_def tailEmission_value)

lemma ex5_rewards:
  "getReward (fst (run_state (ex_net 18289457673709289471 ex_draws) 0)) = 70368744177663"
  "getReward (fst (run_state (ex_net 18289457673709289471 ex_draws) 1)) = 600000000001"
  "getReward (fst (run_state (ex_net 18289457673709289471 ex_draws) 2)) = 600000000000"
proof -
  let ?net = "ex_net 18289457673709289471 ex_draws"
  show "getReward (fst (run_state ?net 0)) = 70368744177663"
    by (simp add: run_state_0 Block0_def getReward_def getBaseReward_0)
  have r1: "getBlockReward ?net = 600000000001"
    by (rule getBlockReward_eval) (simp add: ex_net_simps)
  then show "getReward (fst (run_state ?net 1)) = 600000000001"
    by (simp only: run_state_1 mineBlock_reward)
  have "supply (snd (mineBlock ?net)) = 18289458273709289472"
    by (simp add: mineBlock_supply r1 ex_net_simps)
  then have "getBlockReward (snd (mineBlock ?net)) = 600000000000"
    by (rule getBlockReward_eval)
  then show "getReward (fst (run_state ?net 2)) = 600000000000"
    by (simp only: run_state_2 mineBlock_reward)
qed

theorem mining_loop_stops_witness:
  "mining_loop (ex_net 18289457673709289471 ex_draws)
     = Some (run_state (ex_net 18289457673709289471 ex_draws) 2)
   \<and> getReward (fst (run_state (ex_net 18289457673709289471 ex_draws) 0)) = 70368744177663
   \<and> getReward (fst (run_state (ex_net 18289457673709289471 ex_draws) 1)) = 600000000001
   \<and> getReward (fst (run_state (ex_net 18289457673709289471 ex_draws) 2)) = 600000000000"
proof -
  let ?net = "ex_net 18289457673709289471 ex_draws"
  obtain n where n: "1 \<le> n" "mining_loop ?net = Some (run_state ?net n)"
      "getReward (fst (run_state ?net n)) \<le> tailEmission"
      "\<forall>k < n. tailEmission < getReward (fst (run_state ?net k))"
    using mining_loop_stops [of ?net] by blast
  have "\<not> 2 < n"
    using n(4) ex5_rewards(3) by (auto simp add: tailEmission_value)
  moreover have "n \<noteq> 1"
    using n(3) ex5_rewards(2) by (auto simp add: tailEmission_value)
  ultimately have "n = 2"
    using n(1) by linarith
  with n(2) ex5_rewards show ?thesis by simp
qed

text \<open>
  Claim C6.  Every run terminates: the loop of a run returns for every network, so
  \<^verbatim>\<open>simulateUntilTailEmission\<close> returns for every seed, starting height and starting
  supply.  The floor \<open>tailEmission\<close> is positive.
\<close>

theorem simulateUntilTailEmission_terminates:
  "(\<exists>t. mining_loop net = Some t)
   \<and> (\<exists>r. simulateUntilTailEmission gen stats seed startingHeight startingSupply = Some r)
   \<and> 0 < tailEmission"
proof -
  obtain t where "mining_loop (initialNetwork gen stats seed startingHeight startingSupply) = Some t"
    using mining_loop_returns by blast
  then have "\<exists>r. simulateUntilTailEmission gen stats seed startingHeight startingSupply = Some r"
    by (cases t) (simp add: simulateUntilTailEmission_def)
  then show ?thesis
    using mining_loop_returns [of net] by (simp add: tailEmission_value)
qed

section \<open>The supply during a run\<close>

lemma minted_0: "minted net 0 = 0"
  by (simp add: minted_def)

lemma minted_Suc:
  "minted net (Suc k) = minted net k + unat (getBlockReward (snd (run_state net k)))"
  by (simp add: minted_def run_state_Suc mineBlock_reward)

lemma mines_Suc: "mines net (Suc k) \<longleftrightarrow> mines net k \<and> loop_cond (run_state net k)"
  by (auto simp add: mines_def less_Suc_eq)

lemma supply_run_state_Suc:
  "supply (snd (run_state net (Suc k)))
     = supply (snd (run_state net k)) + getBlockReward (snd (run_state net k))"
  by (simp add: run_state_Suc mineBlock_supply)

lemma loop_cond_run_state_Suc:
  "loop_cond (run_state net (Suc k)) \<longleftrightarrow> tailEmission < getBlockReward (snd (run_state net k))"
  by (simp add: loop_cond_def run_state_Suc mineBlock_reward)

text \<open>After a block above the floor, the floor still fits under the ceiling.\<close>

lemma floor_fits_after:
  assumes "loop_cond (run_state net (Suc k))"
  shows "unat (supply (snd (run_state net (Suc k)))) + unat tailEmission \<le> unat moneySupply"
proof -
  have big: "tailEmission < getBlockReward (snd (run_state net k))"
    using assms by (simp add: loop_cond_run_state_Suc)
  show ?thesis
    using big_reward(3) [OF big]
    by (simp add: supply_run_state_Suc big_reward_supply [OF big])
qed

lemma floor_fits_before:
  assumes "tailEmission < getBlockReward net"
  shows "unat (supply net) + unat tailEmission \<le> unat moneySupply"
  using big_reward(3) [OF assms] by simp

lemma floor_fits_run:
  assumes "unat (supply net) + unat tailEmission \<le> unat moneySupply" and "mines net (Suc k)"
  shows "unat (supply (snd (run_state net k))) + unat tailEmission \<le> unat moneySupply"
proof (cases k)
  case 0
  with assms(1) show ?thesis by (simp add: run_state_0)
next
  case (Suc j)
  with assms(2) have "loop_cond (run_state net (Suc j))"
    by (simp add: mines_Suc)
  then show ?thesis
    unfolding Suc by (rule floor_fits_after)
qed

lemma supply_exact:
  assumes "unat (supply net) + unat tailEmission \<le> unat moneySupply"
  shows "mines net k \<Longrightarrow> unat (supply (snd (run_state net k))) = unat (supply net) + minted net k"
proof (induction k)
  case 0
  show ?case by (simp add: run_state_0 minted_0)
next
  case (Suc k)
  let ?n = "snd (run_state net k)"
  have ih: "unat (supply ?n) = unat (supply net) + minted net k"
    using Suc by (simp add: mines_Suc)
  have "unat (supply ?n) + unat tailEmission \<le> unat moneySupply"
    using assms Suc.prems by (rule floor_fits_run)
  then have "unat (supply ?n + getBlockReward ?n) = unat (supply ?n) + unat (getBlockReward ?n)"
    by (simp only: unat_plus_fits reward_fits_iff)
  with ih show ?case
    by (simp add: supply_run_state_Suc minted_Suc)
qed

text \<open>
  Claim C7, as amended.  In a run that starts from a supply with
  \<open>supply + tailEmission \<le> moneySupply\<close>, the supply after each block is the starting
  supply plus the rewards minted so far, as a sum of integers: no addition to the supply
  wraps around and the supply stays at or below the ceiling.  Nothing but the reward
  curve keeps it there.  The first addition of a run wraps around exactly when the
  starting supply is above \<open>moneySupply - tailEmission\<close>.
\<close>

theorem supply_never_overflows:
  "(unat (supply net) + unat tailEmission \<le> unat moneySupply \<and> mines net k \<longrightarrow>
      unat (supply (snd (run_state net k))) = unat (supply net) + minted net k
      \<and> unat (supply net) + minted net k \<le> unat moneySupply)
   \<and> (unat (supply (snd (run_state net 1))) = unat (supply net) + minted net 1
        \<longleftrightarrow> unat (supply net) + unat tailEmission \<le> unat moneySupply)"
proof (intro conjI impI)
  assume a: "unat (supply net) + unat tailEmission \<le> unat moneySupply \<and> mines net k"
  then show e: "unat (supply (snd (run_state net k))) = unat (supply net) + minted net k"
    using supply_exact by blast
  have "unat (supply (snd (run_state net k))) \<le> unat moneySupply"
    using le_moneySupply by (simp add: word_le_nat_alt)
  with e show "unat (supply net) + minted net k \<le> unat moneySupply"
    by simp
next
  have "minted net 1 = unat (getBlockReward net)"
    using minted_Suc [of net 0] by (simp add: minted_0 run_state_0)
  moreover have "supply (snd (run_state net 1)) = supply net + getBlockReward net"
    using supply_run_state_Suc [of net 0] by (simp add: run_state_0)
  ultimately show "unat (supply (snd (run_state net 1))) = unat (supply net) + minted net 1
        \<longleftrightarrow> unat (supply net) + unat tailEmission \<le> unat moneySupply"
    by (simp only: unat_plus_fits reward_fits_iff)
qed


lemma mines_0: "mines net 0"
  by (simp add: mines_def)

lemma mines_ex5: "mines (ex_net 18289457673709289471 ex_draws) 2"
proof -
  let ?net = "ex_net 18289457673709289471 ex_draws"
  have "loop_cond (run_state ?net 0)" "loop_cond (run_state ?net 1)"
    by (simp_all only: loop_cond_def ex5_rewards) (simp_all add: tailEmission_value)
  then show ?thesis
    by (simp add: numeral_2_eq_2 mines_Suc mines_0)
qed

lemma minted_ex5: "minted (ex_net 18289457673709289471 ex_draws) 2 = 1200000000001"
proof -
  let ?net = "ex_net 18289457673709289471 ex_draws"
  have "minted ?net 2
          = unat (getReward (fst (run_state ?net 1))) + unat (getReward (fst (run_state ?net 2)))"
    by (simp add: minted_def numeral_2_eq_2)
  then show ?thesis
    by (simp only: ex5_rewards) simp
qed

theorem supply_never_overflows_witness:
  "mines (ex_net 18289457673709289471 ex_draws) 2
   \<and> unat (supply (snd (run_state (ex_net 18289457673709289471 ex_draws) 2)))
       = 18289458873709289472
   \<and> unat (supply (snd (run_state (ex_net 18289457673709289471 ex_draws) 1)))
       = 18289458273709289472"
proof -
  let ?net = "ex_net 18289457673709289471 ex_draws"
  have fits: "unat (supply ?net) + unat tailEmission \<le> unat moneySupply"
    by (simp add: ex_net_simps tailEmission_value moneySupply_def)
  have "minted ?net 1 = 600000000001"
    using ex5_rewards(2) by (simp add: minted_def)
  with fits mines_ex5 minted_ex5 show ?thesis
    using supply_never_overflows [of ?net 2] by (simp add: ex_net_simps)
qed

text \<open>
  A run from the supply \<open>moneySupply\<close> mines one block: its reward does not fit under the
  ceiling, and the addition wraps around.
\<close>

theorem supply_never_overflows_counterexample:
  "mining_loop (ex_net 18446744073709551615 ex_draws)
     = Some (run_state (ex_net 18446744073709551615 ex_draws) 1)
   \<and> unat moneySupply < unat (supply (ex_net 18446744073709551615 ex_draws))
        + unat (getReward (fst (run_state (ex_net 18446744073709551615 ex_draws) 1)))
   \<and> supply (snd (run_state (ex_net 18446744073709551615 ex_draws) 1)) = 599999999999"
proof -
  let ?net = "ex_net 18446744073709551615 ex_draws"
  have r: "getBlockReward ?net = 600000000000"
    by (simp add: getBlockReward_def getBaseReward_def moneySupply_def tailEmission_value
        ex_net_simps)
  then have stop: "\<not> loop_cond (mineBlock ?net)"
    by (simp add: loop_cond_def mineBlock_reward tailEmission_value)
  have "mining_loop ?net = while_option loop_cond loop_step (mineBlock ?net)"
    unfolding mining_loop_def
    by (subst while_option_unfold) (simp add: loop_cond_Block0 loop_step_def)
  also have "\<dots> = Some (mineBlock ?net)"
    using stop by (subst while_option_unfold) simp
  finally have "mining_loop ?net = Some (run_state ?net 1)"
    by (simp only: run_state_1)
  moreover have "unat moneySupply < unat (supply ?net) + unat (getReward (fst (run_state ?net 1)))"
    by (simp only: run_state_1 mineBlock_reward r ex_net_simps) (simp add: moneySupply_def)
  moreover have "supply (snd (run_state ?net 1)) = 599999999999"
    by (simp only: run_state_1 mineBlock_supply r ex_net_simps) simp
  ultimately show ?thesis by simp
qed

section \<open>The rewards of the pools during a run\<close>

lemma residual_0: "residual net 0 = 0"
  by (simp add: residual_def)

lemma residual_Suc:
  "residual net (Suc k) = residual net k +
     (if minedBy (fst (mineBlock (snd (run_state net k)))) = None
      then unat (getBlockReward (snd (run_state net k))) else 0)"
  by (simp add: residual_def run_state_Suc mineBlock_reward)

lemma minedBy_less:
  assumes "minedBy (fst (mineBlock net)) = Some i"
  shows "i < length (pools net)"
  using assms unfolding mineBlock_minedBy mineBlock_loop_Some by auto

lemma accrued_update:
  assumes "i < length ps"
  shows "accrued (ps[i := p]) + unat (getRewards (ps ! i)) = accrued ps + unat (getRewards p)"
proof -
  let ?f = "\<lambda>p. unat (getRewards p)"
  have i: "i < length (map ?f ps)"
    using assms by simp
  have "?f (ps ! i) \<le> sum_list (map ?f ps)"
    using assms by (intro member_le_sum_list; simp)
  moreover have "sum_list ((map ?f ps)[i := ?f p]) = sum_list (map ?f ps) + ?f p - (map ?f ps) ! i"
    using i by (rule sum_list_update)
  ultimately show ?thesis
    using assms by (simp add: accrued_def map_update)
qed

lemma accrued_nth_le: "i < length ps \<Longrightarrow> unat (getRewards (ps ! i)) \<le> accrued ps"
  unfolding accrued_def by (intro member_le_sum_list; simp)

lemma getRewards_addBlock: "getRewards (addBlock p b) = getRewards p + getReward b"
  by (simp add: addBlock_def getRewards_def)

text \<open>
  A block adds its reward to the rewards of the pools when a pool wins it, as long as
  the sum fits in 64 bits.
\<close>

lemma accrued_mineBlock:
  assumes "accrued (pools net) + unat (getBlockReward net) \<le> unat moneySupply"
  shows "accrued (pools (snd (mineBlock net))) =
           accrued (pools net) +
             (if minedBy (fst (mineBlock net)) = None then 0 else unat (getBlockReward net))"
proof (cases "minedBy (fst (mineBlock net))")
  case None
  then show ?thesis by (simp add: mineBlock_pools)
next
  case (Some i)
  let ?ps = "pools net"
  let ?p = "addBlock (?ps ! i) (fst (mineBlock net))"
  have i: "i < length ?ps"
    using Some by (rule minedBy_less)
  have "unat (getRewards (?ps ! i)) + unat (getBlockReward net) \<le> unat moneySupply"
    using accrued_nth_le [OF i] assms by linarith
  then have "unat (getRewards ?p) = unat (getRewards (?ps ! i)) + unat (getBlockReward net)"
    by (simp add: getRewards_addBlock mineBlock_reward unat_plus_fits)
  then have "accrued (?ps[i := ?p]) = accrued ?ps + unat (getBlockReward net)"
    using accrued_update [OF i, of ?p] by simp
  with Some show ?thesis by (simp add: mineBlock_pools)
qed

text \<open>The rewards minted by a run fit under the ceiling.\<close>

lemma minted_le:
  assumes "mines net k"
  shows "minted net k \<le> unat moneySupply"
proof (cases "k \<le> 1")
  case True
  then have "k = 0 \<or> k = Suc 0" by linarith
  then show ?thesis
  proof
    assume "k = 0"
    then show ?thesis by (simp add: minted_0)
  next
    assume "k = Suc 0"
    moreover have "getBlockReward net \<le> moneySupply"
      by (rule le_moneySupply)
    ultimately show ?thesis
      by (simp add: minted_Suc minted_0 run_state_0 word_le_nat_alt)
  qed
next
  case False
  then have "Suc 0 < k" by simp
  with assms have "loop_cond (run_state net (Suc 0))"
    by (simp add: mines_def)
  then have "tailEmission < getBlockReward net"
    by (simp add: loop_cond_run_state_Suc run_state_0)
  then have "unat (supply net) + unat tailEmission \<le> unat moneySupply"
    by (rule floor_fits_before)
  then have "unat (supply (snd (run_state net k))) = unat (supply net) + minted net k"
    using assms by (rule supply_exact)
  moreover have "supply (snd (run_state net k)) \<le> moneySupply"
    by (rule le_moneySupply)
  ultimately show ?thesis
    by (simp add: word_le_nat_alt)
qed

lemma accrued_run:
  assumes "accrued (pools net) = 0"
  shows "mines net k \<Longrightarrow> accrued (pools (snd (run_state net k))) + residual net k = minted net k"
proof (induction k)
  case 0
  show ?case
    using assms by (simp add: run_state_0 residual_0 minted_0)
next
  case (Suc k)
  let ?n = "snd (run_state net k)"
  have ih: "accrued (pools ?n) + residual net k = minted net k"
    using Suc by (simp add: mines_Suc)
  have "minted net (Suc k) \<le> unat moneySupply"
    using Suc.prems by (rule minted_le)
  then have "accrued (pools ?n) + unat (getBlockReward ?n) \<le> unat moneySupply"
    using ih by (simp add: minted_Suc)
  then have "accrued (pools (snd (mineBlock ?n))) =
           accrued (pools ?n) +
             (if minedBy (fst (mineBlock ?n)) = None then 0 else unat (getBlockReward ?n))"
    by (rule accrued_mineBlock)
  with ih show ?case
    by (simp add: run_state_Suc [of net k] residual_Suc minted_Suc)
qed

lemma getBlockReward_pos: "0 < unat (getBlockReward net)"
proof -
  have "unat tailEmission \<le> unat (getBlockReward net)"
    by (simp add: unat_getBlockReward)
  then show ?thesis
    by (simp add: unat_tailEmission)
qed

lemma residual_0_iff:
  "residual net k = 0 \<longleftrightarrow> (\<forall>j. 1 \<le> j \<and> j \<le> k \<longrightarrow> minedBy (fst (run_state net j)) \<noteq> None)"
proof (induction k)
  case 0
  show ?case by (simp add: residual_0)
next
  case (Suc k)
  have "(\<forall>j. 1 \<le> j \<and> j \<le> Suc k \<longrightarrow> minedBy (fst (run_state net j)) \<noteq> None)
        \<longleftrightarrow> (\<forall>j. 1 \<le> j \<and> j \<le> k \<longrightarrow> minedBy (fst (run_state net j)) \<noteq> None)
            \<and> minedBy (fst (run_state net (Suc k))) \<noteq> None"
    by (auto simp add: le_Suc_eq)
  with Suc show ?case
    using getBlockReward_pos [of "snd (run_state net k)"]
    by (simp add: residual_Suc run_state_Suc)
qed

lemma accrued_initialNetwork:
  "accrued (pools (initialNetwork gen stats seed startingHeight startingSupply)) = 0"
  by (simp add: initialNetwork_def accrued_def getPool_def mkPool_def getRewards_def comp_def)


text \<open>
  Claim C8.  At every point of a run, the rewards accrued by the pools are at most the
  rewards minted so far, and they are equal exactly when a pool has won every block so
  far.
\<close>

theorem accrued_le_minted:
  assumes "net = initialNetwork gen stats seed startingHeight startingSupply"
    and "mines net k"
  shows "accrued (pools (snd (run_state net k))) \<le> minted net k
    \<and> (accrued (pools (snd (run_state net k))) = minted net k
        \<longleftrightarrow> (\<forall>j. 1 \<le> j \<and> j \<le> k \<longrightarrow> minedBy (fst (run_state net j)) \<noteq> None))"
proof -
  have "accrued (pools net) = 0"
    unfolding assms(1) by (rule accrued_initialNetwork)
  then have "accrued (pools (snd (run_state net k))) + residual net k = minted net k"
    using assms(2) by (rule accrued_run)
  then have "accrued (pools (snd (run_state net k))) \<le> minted net k"
    and "accrued (pools (snd (run_state net k))) = minted net k \<longleftrightarrow> residual net k = 0"
    by linarith+
  then show ?thesis
    by (simp only: residual_0_iff)
qed

lemma ex5_winners:
  "minedBy (fst (run_state (ex_net 18289457673709289471 ex_draws) 1)) = Some 1"
  "minedBy (fst (run_state (ex_net 18289457673709289471 ex_draws) 2)) = None"
proof -
  let ?net = "ex_net 18289457673709289471 ex_draws"
  show w1: "minedBy (fst (run_state ?net 1)) = Some 1"
    unfolding run_state_1 mineBlock_minedBy
    by (simp add: pools_ex_net ex_net_simps ex_draws_def getHashrate_def mkPool_def)
  then have "minedBy (fst (mineBlock ?net)) = Some 1"
    by (simp only: run_state_1)
  then have "pools (snd (mineBlock ?net))
      = [mkPool ''A'' (Num 0.3), addBlock (mkPool ''B'' (Num 0.003)) (fst (mineBlock ?net))]"
    by (simp add: mineBlock_pools pools_ex_net)
  then show "minedBy (fst (run_state ?net 2)) = None"
    unfolding run_state_2 mineBlock_minedBy
    by (simp add: mineBlock_rng ex_net_simps ex_draws_def getHashrate_def mkPool_def
        addBlock_def)
qed

theorem accrued_le_minted_witness:
  "accrued (pools (snd (run_state (ex_net 18289457673709289471 ex_draws) 1))) = 600000000001
   \<and> accrued (pools (snd (run_state (ex_net 18289457673709289471 ex_draws) 2))) < 1200000000001"
proof -
  let ?net = "ex_net 18289457673709289471 ex_draws"
  have net: "?net = initialNetwork (\<lambda>seed. ex_draws) ex_stats () 2082536 18289457673709289471"
    by (simp add: ex_net_def)
  have m2: "mines ?net 2"
    by (rule mines_ex5)
  then have m1: "mines ?net 1"
    by (simp add: mines_def)
  have all1: "\<forall>j. 1 \<le> j \<and> j \<le> 1 \<longrightarrow> minedBy (fst (run_state ?net j)) \<noteq> None"
  proof (intro allI impI)
    fix j :: nat assume "1 \<le> j \<and> j \<le> 1"
    then have "j = 1" by simp
    then show "minedBy (fst (run_state ?net j)) \<noteq> None"
      using ex5_winners(1) by simp
  qed
  have "minted ?net 1 = 600000000001"
    using ex5_rewards(2) by (simp add: minted_def)
  with all1 have a1: "accrued (pools (snd (run_state ?net 1))) = 600000000001"
    using accrued_le_minted [OF net m1] by simp
  have "\<not> (\<forall>j. 1 \<le> j \<and> j \<le> 2 \<longrightarrow> minedBy (fst (run_state ?net j)) \<noteq> None)"
  proof
    assume "\<forall>j. 1 \<le> j \<and> j \<le> 2 \<longrightarrow> minedBy (fst (run_state ?net j)) \<noteq> None"
    then have "minedBy (fst (run_state ?net 2)) \<noteq> None"
      by simp
    with ex5_winners(2) show False
      by simp
  qed
  then have "accrued (pools (snd (run_state ?net 2))) < minted ?net 2"
    using accrued_le_minted [OF net m2] by (simp add: order_less_le)
  with a1 show ?thesis
    by (simp only: minted_ex5)
qed

section \<open>Statistics of the runs\<close>

lemma printStats_with_formula:
  "printStats_with ar nm vals = (nm, formula_mean ar vals, formula_error ar vals)"
proof -
  have "foldl (\<lambda>varsum val. ar_add ar varsum (ar_mul ar (ar_sub ar val m) (ar_sub ar val m)))
          z vals
        = foldl (ar_add ar) z (map (\<lambda>x. ar_mul ar (ar_sub ar x m) (ar_sub ar x m)) vals)"
    for m z
    by (induction vals arbitrary: z) simp_all
  then show ?thesis
    by (simp add: printStats_with_def Let_def formula_mean_def formula_error_def
        formula_sum_def)
qed

lemma StatsSet_printStats_with:
  "StatsSet_printStats s = printStats_with double_arith (StatsSet.name s) (values s)"
  by (simp add: StatsSet_printStats_def printStats_with_def double_arith_def)

lemma foldl_plus_real: "foldl (+) a xs = a + sum_list xs" for a :: real
  by (induction xs arbitrary: a) (simp_all add: add.assoc)

lemma formula_mean_real: "formula_mean real_arith xs = spec_mean xs"
  by (simp add: formula_mean_def formula_sum_def real_arith_def foldl_plus_real spec_mean_def)

lemma formula_error_real:
  "formula_error real_arith xs
     = sqrt ((\<Sum>x \<leftarrow> xs. (x - spec_mean xs)\<^sup>2) / real (length xs) / real (length xs))"
proof -
  have "formula_error real_arith xs
     = sqrt (foldl (+) 0 (map (\<lambda>x. (x - spec_mean xs) * (x - spec_mean xs)) xs)
         / real (length xs) / real (length xs))"
    unfolding formula_error_def formula_mean_real
    by (simp add: formula_sum_def real_arith_def)
  then show ?thesis
    by (simp add: foldl_plus_real power2_eq_square)
qed

text \<open>
  Claim C1, as amended.  For every sequence of \<open>N\<close> samples, in whatever arithmetic the
  operations of \<^verbatim>\<open>double\<close> are, the report gives the mean \<open>(\<Sum> samples) / N\<close> and the
  error \<open>sqrt ((\<Sum> (sample - mean)\<^sup>2) / N / N)\<close>, computed in two passes.  On the real
  numbers and for a non-empty sequence this formula is the standard deviation of the
  samples divided by \<open>sqrt N\<close>, which is \<open>sqrt N\<close> times the error of the specification.
\<close>

theorem printStats_mean_error:
  "printStats_with ar nm vals = (nm, formula_mean ar vals, formula_error ar vals)
   \<and> StatsSet_printStats s
       = (StatsSet.name s, formula_mean double_arith (values s),
          formula_error double_arith (values s))
   \<and> (xs \<noteq> [] \<longrightarrow>
        formula_mean real_arith xs = sum_list xs / real (length xs)
        \<and> formula_error real_arith xs
            = sqrt ((\<Sum>x \<leftarrow> xs. (x - spec_mean xs)\<^sup>2) / real (length xs))
                / sqrt (real (length xs))
        \<and> formula_error real_arith xs = spec_error xs * sqrt (real (length xs)))"
proof (intro conjI impI)
  show "printStats_with ar nm vals = (nm, formula_mean ar vals, formula_error ar vals)"
    by (rule printStats_with_formula)
  show "StatsSet_printStats s
       = (StatsSet.name s, formula_mean double_arith (values s),
          formula_error double_arith (values s))"
    by (simp only: StatsSet_printStats_with printStats_with_formula)
  show "formula_mean real_arith xs = sum_list xs / real (length xs)"
    by (simp add: formula_mean_real spec_mean_def)
  show "formula_error real_arith xs
            = sqrt ((\<Sum>x \<leftarrow> xs. (x - spec_mean xs)\<^sup>2) / real (length xs))
                / sqrt (real (length xs))"
    by (simp add: formula_error_real real_sqrt_divide)
  assume "xs \<noteq> []"
  then have pos: "0 < real (length xs)"
    by simp
  then have "real (length xs) = sqrt (real (length xs)) * sqrt (real (length xs))"
    by simp
  then have "sqrt (real (length xs)) / real (length xs) = 1 / sqrt (real (length xs))"
    using pos
    by (metis real_sqrt_eq_zero_cancel_iff less_irrefl nonzero_divide_mult_cancel_left)
  then show "formula_error real_arith xs = spec_error xs * sqrt (real (length xs))"
    by (simp add: formula_error_real spec_error_def real_sqrt_divide)
qed

lemma sqrt_quarter: "sqrt (1 / 4) = 1 / 2"
  by (simp add: real_sqrt_divide)

theorem printStats_mean_error_witness:
  "StatsSet_printStats ((mkStatsSet ''blocks'')\<lparr>values := [Num 1, Num 3, Num 1, Num 3]\<rparr>)
     = (''blocks'', Num 2, Num (1 / 2))
   \<and> formula_mean real_arith [1, 3, 1, 3] = 2
   \<and> formula_error real_arith [1, 3, 1, 3] = 1 / 2
   \<and> spec_error [1, 3, 1, 3] = 1 / 4"
proof -
  let ?s = "(mkStatsSet ''blocks'')\<lparr>values := [Num 1, Num 3, Num 1, Num 3]\<rparr>"
  note inst = printStats_mean_error [of real_arith "''blocks''" "[]" ?s "[1, 3, 1, 3]"]
  have n: "StatsSet.name ?s = ''blocks''"
    by (simp add: mkStatsSet_def)
  have m: "formula_mean double_arith (values ?s) = Num 2"
    by (simp add: formula_mean_def formula_sum_def double_arith_def double_of_nat_def)
  have e: "formula_error double_arith (values ?s) = Num (1 / 2)"
    unfolding formula_error_def m
    by (simp add: formula_sum_def double_arith_def double_of_nat_def dsub_def sqrt_quarter)
  have r: "StatsSet_printStats ?s = (''blocks'', Num 2, Num (1 / 2))"
    using inst by (simp only: n m e)
  have sm: "spec_mean [1, 3, 1, 3] = 2"
    by (simp add: spec_mean_def)
  have se: "spec_error [1, 3, 1, 3] = 1 / 4"
    unfolding spec_error_def sm by simp
  have ne: "[1, 3, 1, 3 :: real] \<noteq> []"
    by simp
  from inst ne
  have fm: "formula_mean real_arith [1, 3, 1, 3]
              = sum_list [1, 3, 1, 3] / real (length [1, 3, 1, 3 :: real])"
    and fe: "formula_error real_arith [1, 3, 1, 3]
              = spec_error [1, 3, 1, 3] * sqrt (real (length [1, 3, 1, 3 :: real]))"
    by blast+
  have "sqrt 4 = 2"
    using real_sqrt_abs [of 2] by simp
  then have "formula_error real_arith [1, 3, 1, 3] = 1 / 2"
    unfolding fe se by simp
  moreover have "formula_mean real_arith [1, 3, 1, 3] = 2"
    unfolding fm by simp
  ultimately show ?thesis
    using r se by simp
qed

text \<open>
  On the samples 0, 2, 0, 2 every operation is exact in binary floating point.  The
  mean is 1 and the sum of the squares is 4: the report gives the error
  \<open>sqrt (4 / 4 / 4) = 1/2\<close>, and the specification \<open>sqrt (4 / 4) / 4 = 1/4\<close>.
\<close>

theorem printStats_mean_error_counterexample:
  "StatsSet_printStats ((mkStatsSet ''reward'')\<lparr>values := [Num 0, Num 2, Num 0, Num 2]\<rparr>)
     = (''reward'', Num 1, Num (1 / 2))
   \<and> spec_mean [0, 2, 0, 2] = 1
   \<and> spec_error [0, 2, 0, 2] = 1 / 4
   \<and> snd (snd (StatsSet_printStats
          ((mkStatsSet ''reward'')\<lparr>values := [Num 0, Num 2, Num 0, Num 2]\<rparr>)))
       \<noteq> Num (spec_error [0, 2, 0, 2])"
proof (intro conjI)
  show "StatsSet_printStats ((mkStatsSet ''reward'')\<lparr>values := [Num 0, Num 2, Num 0, Num 2]\<rparr>)
     = (''reward'', Num 1, Num (1 / 2))"
    by (simp add: StatsSet_printStats_def mkStatsSet_def Let_def double_of_nat_def dsub_def
        sqrt_quarter)
  show m: "spec_mean [0, 2, 0, 2] = 1"
    by (simp add: spec_mean_def)
  show e: "spec_error [0, 2, 0, 2] = 1 / 4"
    unfolding spec_error_def m by simp
  show "snd (snd (StatsSet_printStats
          ((mkStatsSet ''reward'')\<lparr>values := [Num 0, Num 2, Num 0, Num 2]\<rparr>)))
       \<noteq> Num (spec_error [0, 2, 0, 2])"
    unfolding e
    by (simp add: StatsSet_printStats_def mkStatsSet_def Let_def double_of_nat_def dsub_def
        sqrt_quarter)
qed

text \<open>
  Claim C9.  A report of a set without values does not give 0 and 0: the mean and the
  error are both NaN, the result of \<open>0 / 0\<close>.
\<close>

theorem printStats_empty:
  "StatsSet_printStats (s\<lparr>values := []\<rparr>) = (StatsSet.name s, NaN, NaN)
   \<and> StatsSet_printStats (mkStatsSet n) = (n, NaN, NaN)
   \<and> StatsSet_printStats (mkStatsSet n) \<noteq> (n, Num 0, Num 0)"
  by (simp add: StatsSet_printStats_def mkStatsSet_def Let_def double_of_nat_def)

end
